theory Spec2Isabelle
  imports Main
begin

section \<open>Fragment parameters: the URLSearchParams the reporter builds and reads\<close>

text \<open>
  \<^verbatim>\<open>links.tsx\<close> keeps the state of the report view in the fragment of the page URL. It
  reads it with \<^verbatim>\<open>new URLSearchParams(window.location.hash.slice(1))\<close> and writes it with
  \<^verbatim>\<open>'#?' + params\<close>. \<^verbatim>\<open>URLSearchParams\<close> is the host's class (WHATWG URL standard,
  application/x-www-form-urlencoded); the operations the file calls are embedded here
  from that standard: an ordered list of name/value pairs, \<^verbatim>\<open>get\<close>, \<^verbatim>\<open>set\<close>, the string
  constructor and \<^verbatim>\<open>toString\<close>.

  A string of the program is represented by the bytes of its UTF-8 encoding, which for
  ASCII text is the text itself. The parser's last step decodes the bytes as UTF-8 and
  puts U+FFFD for every ill-formed sequence; the model keeps the bytes, so it is exact
  on ASCII and on well-formed UTF-8 and differs from the host on a name or value whose
  escapes do not decode to UTF-8 (\<^verbatim>\<open>%ff\<close> is the byte \<open>0xFF\<close> here and U+FFFD there).
\<close>

type_synonym URLSearchParams = "(string \<times> string) list"

text \<open>\<^verbatim>\<open>get(name)\<close>: the value of the first pair with that name, \<^verbatim>\<open>null\<close> when none.\<close>

fun URLSearchParams_get :: "URLSearchParams \<Rightarrow> string \<Rightarrow> string option" where
  "URLSearchParams_get [] key = None"
| "URLSearchParams_get ((n, v) # ps) key =
     (if n = key then Some v else URLSearchParams_get ps key)"

text \<open>
  \<^verbatim>\<open>set(name, value)\<close>: the first pair with that name takes the value and the other pairs
  with that name are removed; with no such pair, a new pair is appended.
\<close>

fun replaceFirst :: "URLSearchParams \<Rightarrow> string \<Rightarrow> string \<Rightarrow> URLSearchParams" where
  "replaceFirst [] key val = []"
| "replaceFirst ((n, v) # ps) key val =
     (if n = key then (key, val) # filter (\<lambda>p. fst p \<noteq> key) ps
      else (n, v) # replaceFirst ps key val)"

definition URLSearchParams_set :: "URLSearchParams \<Rightarrow> string \<Rightarrow> string \<Rightarrow> URLSearchParams" where
  "URLSearchParams_set ps key val =
     (if key \<in> fst ` set ps then replaceFirst ps key val else ps @ [(key, val)])"

subsection \<open>Serialising\<close>

definition isAlnum :: "char \<Rightarrow> bool" where
  "isAlnum c = (let n = (of_char c :: nat) in
     (48 \<le> n \<and> n \<le> 57) \<or> (65 \<le> n \<and> n \<le> 90) \<or> (97 \<le> n \<and> n \<le> 122))"

text \<open>The bytes the urlencoded serialiser leaves as they are.\<close>

definition isUnreserved :: "char \<Rightarrow> bool" where
  "isUnreserved c = (isAlnum c \<or> c = CHR ''*'' \<or> c = CHR ''-'' \<or> c = CHR ''.'' \<or> c = CHR ''_'')"

definition hexDigit :: "nat \<Rightarrow> char" where
  "hexDigit k = ''0123456789ABCDEF'' ! (k mod 16)"

definition urlencodeByte :: "char \<Rightarrow> string" where
  "urlencodeByte c =
     (if c = CHR '' '' then ''+''
      else if isUnreserved c then [c]
      else [CHR ''%'', hexDigit ((of_char c :: nat) div 16), hexDigit ((of_char c :: nat) mod 16)])"

definition urlencode :: "string \<Rightarrow> string" where
  "urlencode s = concat (map urlencodeByte s)"

text \<open>\<^verbatim>\<open>Array.prototype.join\<close>, also the way the serialiser puts \<^verbatim>\<open>&\<close> between pairs.\<close>

fun joinWith :: "string \<Rightarrow> string list \<Rightarrow> string" where
  "joinWith sep [] = []"
| "joinWith sep [x] = x"
| "joinWith sep (x # y # ys) = x @ sep @ joinWith sep (y # ys)"

definition serializePair :: "string \<times> string \<Rightarrow> string" where
  "serializePair p = urlencode (fst p) @ ''='' @ urlencode (snd p)"

definition URLSearchParams_toString :: "URLSearchParams \<Rightarrow> string" where
  "URLSearchParams_toString ps = joinWith ''&'' (map serializePair ps)"

subsection \<open>Parsing\<close>

definition isHex :: "char \<Rightarrow> bool" where
  "isHex c = (let n = (of_char c :: nat) in
     (48 \<le> n \<and> n \<le> 57) \<or> (65 \<le> n \<and> n \<le> 70) \<or> (97 \<le> n \<and> n \<le> 102))"

definition hexVal :: "char \<Rightarrow> nat" where
  "hexVal c = (let n = (of_char c :: nat) in
     if n \<le> 57 then n - 48 else if n \<le> 70 then n - 55 else n - 87)"

text \<open>
  Percent-decoding: a \<^verbatim>\<open>%\<close> followed by two hexadecimal digits is the byte they
  denote; every other byte, a \<^verbatim>\<open>%\<close> with anything else behind it too, stands for itself.
\<close>

fun percentDecode :: "string \<Rightarrow> string" where
  "percentDecode (c # h # l # rest) =
     (if c = CHR ''%'' \<and> isHex h \<and> isHex l
      then char_of (16 * hexVal h + hexVal l) # percentDecode rest
      else c # percentDecode (h # l # rest))"
| "percentDecode cs = cs"

definition plusToSpace :: "string \<Rightarrow> string" where
  "plusToSpace s = map (\<lambda>c. if c = CHR ''+'' then CHR '' '' else c) s"

definition decodeComponent :: "string \<Rightarrow> string" where
  "decodeComponent s = percentDecode (plusToSpace s)"

text \<open>Strict splitting on a separator: \<^verbatim>\<open>n\<close> separators give \<^verbatim>\<open>n + 1\<close> pieces.\<close>

fun splitOn :: "char \<Rightarrow> string \<Rightarrow> string list" where
  "splitOn d [] = [[]]"
| "splitOn d (c # cs) =
     (if c = d then [] # splitOn d cs
      else (c # hd (splitOn d cs)) # tl (splitOn d cs))"

text \<open>
  One non-empty piece becomes one pair: the name is what stands before the first
  \<^verbatim>\<open>=\<close>, the value what stands behind it (empty when there is no \<^verbatim>\<open>=\<close>).
\<close>

definition parsePair :: "string \<Rightarrow> string \<times> string" where
  "parsePair seg =
     (decodeComponent (takeWhile (\<lambda>c. c \<noteq> CHR ''='') seg),
      decodeComponent (drop 1 (dropWhile (\<lambda>c. c \<noteq> CHR ''='') seg)))"

definition urlencodedParse :: "string \<Rightarrow> URLSearchParams" where
  "urlencodedParse input = map parsePair (filter (\<lambda>seg. seg \<noteq> []) (splitOn CHR ''&'' input))"

text \<open>\<^verbatim>\<open>new URLSearchParams(init)\<close> for a string: one leading \<^verbatim>\<open>?\<close> is dropped.\<close>

definition stripQuestion :: "string \<Rightarrow> string" where
  "stripQuestion init = (case init of c # cs \<Rightarrow> if c = CHR ''?'' then cs else init | [] \<Rightarrow> init)"

definition new_URLSearchParams :: "string \<Rightarrow> URLSearchParams" where
  "new_URLSearchParams init = urlencodedParse (stripQuestion init)"

text \<open>
  The expression of lines 102, 105 and 108,
  \<^verbatim>\<open>new URLSearchParams(window.location.hash.slice(1))\<close>, as a function of the value of
  \<^verbatim>\<open>window.location.hash\<close>.
\<close>

definition parseFragment :: "string \<Rightarrow> URLSearchParams" where
  "parseFragment hash = new_URLSearchParams (drop 1 hash)"

section \<open>Link builders\<close>

subsection \<open>testResultHref\<close>

text \<open>
  A test result is an object, and \<^verbatim>\<open>Array.prototype.indexOf\<close> compares objects with
  \<^verbatim>\<open>===\<close>, that is by identity. An object is therefore its address together with what
  it holds; the fields of \<^verbatim>\<open>TestResult\<close> and \<^verbatim>\<open>TestResultSummary\<close> (declared in
  \<^verbatim>\<open>./types\<close>) are not read by \<^verbatim>\<open>testResultHref\<close> and stay a parameter. Of a test
  (\<^verbatim>\<open>TestCase\<close> or \<^verbatim>\<open>TestCaseSummary\<close>) it reads \<^verbatim>\<open>testId\<close> and \<^verbatim>\<open>results\<close>.
\<close>

record 'v TestResult =
  address :: nat
  payload :: 'v

record 'v TestCase =
  testId :: string
  results :: "'v TestResult list"

text \<open>\<^verbatim>\<open>xs.indexOf(r)\<close>: the first position holding the very object, \<^verbatim>\<open>-1\<close> when none does.\<close>

fun indexFrom :: "int \<Rightarrow> 'v TestResult list \<Rightarrow> 'v TestResult \<Rightarrow> int" where
  "indexFrom k [] r = -1"
| "indexFrom k (x # xs) r = (if address x = address r then k else indexFrom (k + 1) xs r)"

definition indexOf :: "'v TestResult list \<Rightarrow> 'v TestResult \<Rightarrow> int" where
  "indexOf xs r = indexFrom 0 xs r"

text \<open>\<^verbatim>\<open>'' + n\<close> for an integer \<^verbatim>\<open>n\<close>: its decimal digits, with a minus sign below zero.\<close>

definition digitChar :: "nat \<Rightarrow> char" where
  "digitChar d = ''0123456789'' ! (d mod 10)"

function decimal :: "nat \<Rightarrow> string" where
  "decimal n = (if n < 10 then [digitChar n] else decimal (n div 10) @ [digitChar (n mod 10)])"
  by pat_completeness auto
termination
  by (relation "measure (\<lambda>n. n)") auto

declare decimal.simps [simp del]

definition numberToString :: "int \<Rightarrow> string" where
  "numberToString i = (if i < 0 then CHR ''-'' # decimal (nat (- i)) else decimal (nat i))"

text \<open>
  The body of \<^verbatim>\<open>testResultHref\<close> up to its last line: the parameters it has set. An
  absent argument is \<open>None\<close>. \<^verbatim>\<open>if (anchor)\<close> and \<^verbatim>\<open>if (filter?.get('q'))\<close> test a
  string for truthiness, which the empty string fails.
\<close>

definition testResultParams ::
  "'v TestCase option \<Rightarrow> 'v TestResult option \<Rightarrow> string option \<Rightarrow> URLSearchParams option
     \<Rightarrow> URLSearchParams" where
  "testResultParams test result anchor filt =
     (let params = [];
          params = (case test of None \<Rightarrow> params
                    | Some t \<Rightarrow> URLSearchParams_set params ''testId'' (testId t));
          params = (case test of None \<Rightarrow> params
                    | Some t \<Rightarrow> (case result of None \<Rightarrow> params
                        | Some r \<Rightarrow> URLSearchParams_set params ''run''
                                     (numberToString (indexOf (results t) r))));
          params = (case anchor of None \<Rightarrow> params
                    | Some a \<Rightarrow> if a \<noteq> [] then URLSearchParams_set params ''anchor'' a else params);
          params = (case filt of None \<Rightarrow> params
                    | Some f \<Rightarrow> (case URLSearchParams_get f ''q'' of None \<Rightarrow> params
                        | Some q \<Rightarrow> if q \<noteq> []
                            then URLSearchParams_set params ''q''
                                   (case URLSearchParams_get f ''q'' of None \<Rightarrow> [] | Some q' \<Rightarrow> q')
                            else params))
      in params)"

definition testResultHref ::
  "'v TestCase option \<Rightarrow> 'v TestResult option \<Rightarrow> string option \<Rightarrow> URLSearchParams option
     \<Rightarrow> string" where
  "testResultHref test result anchor filt =
     ''#?'' @ URLSearchParams_toString (testResultParams test result anchor filt)"

subsection \<open>generateTraceUrl\<close>

datatype error = TypeError | SecurityError

text \<open>An attachment (\<^verbatim>\<open>TestAttachment\<close> of \<^verbatim>\<open>./types\<close>), with the fields this file reads.\<close>

record TestAttachment =
  name :: string
  contentType :: string
  path :: "string option"
  body :: "string option"

text \<open>
  \<^verbatim>\<open>new URL(url, base)\<close> in a template literal: the host's URL parser, which throws a
  \<^verbatim>\<open>TypeError\<close> when it cannot parse, and otherwise gives the absolute URL whose text is
  interpolated. The parser is the host's and stays a parameter \<open>newURL\<close>, \<open>None\<close> being the
  throw. \<^verbatim>\<open>a.path!\<close> only silences the type checker: a missing path reaches the
  constructor as \<^verbatim>\<open>undefined\<close>, which it reads as the text \<^verbatim>\<open>undefined\<close>.
\<close>

fun traceEntries :: "(string \<Rightarrow> string \<Rightarrow> string option) \<Rightarrow> string \<Rightarrow> TestAttachment list
    \<Rightarrow> error + string list" where
  "traceEntries newURL href [] = Inr []"
| "traceEntries newURL href (a # as) =
     (case newURL (case path a of None \<Rightarrow> ''undefined'' | Some p \<Rightarrow> p) href of
        None \<Rightarrow> Inl TypeError
      | Some u \<Rightarrow> (case traceEntries newURL href as of
                    Inl e \<Rightarrow> Inl e
                  | Inr es \<Rightarrow> Inr ((''trace='' @ u) # es)))"

definition generateTraceUrl :: "(string \<Rightarrow> string \<Rightarrow> string option) \<Rightarrow> string \<Rightarrow> TestAttachment list
    \<Rightarrow> error + string" where
  "generateTraceUrl newURL href traces =
     (case traceEntries newURL href traces of
        Inl e \<Rightarrow> Inl e
      | Inr es \<Rightarrow> Inr (''trace/index.html?'' @ joinWith ''&'' es))"

text \<open>
  What a reader of the link finds in it. The query of a URL is what stands behind its
  first \<^verbatim>\<open>?\<close>, the fragment (from the first \<^verbatim>\<open>#\<close> on) left aside; its entries are the
  pieces between the \<^verbatim>\<open>&\<close>, the empty ones skipped, as the trace viewer reads them with
  \<^verbatim>\<open>URLSearchParams\<close>. This is the specification's "query string" and "entry", not code
  of this file.
\<close>

definition urlQuery :: "string \<Rightarrow> string" where
  "urlQuery url =
     drop 1 (dropWhile (\<lambda>c. c \<noteq> CHR ''?'') (takeWhile (\<lambda>c. c \<noteq> CHR ''#'') url))"

definition queryEntries :: "string \<Rightarrow> string list" where
  "queryEntries url = filter (\<lambda>seg. seg \<noteq> []) (splitOn CHR ''&'' (urlQuery url))"

text \<open>
  A host for the examples. It does what a browser's \<^verbatim>\<open>new URL(url, base)\<close> does on the
  inputs the examples give it: a relative reference made of a file name, with or without
  a query or a fragment, is put behind a base that ends in \<^verbatim>\<open>/\<close>; an \<^verbatim>\<open>http\<close> URL whose
  host opens a bracket that is never closed is refused with a \<^verbatim>\<open>TypeError\<close>. It is not a
  model of the URL parser on other inputs.
\<close>

definition exampleHost :: "string \<Rightarrow> string \<Rightarrow> string option" where
  "exampleHost url base =
     (if take 8 url = ''http://['' \<and> CHR '']'' \<notin> set url then None else Some (base @ url))"

section \<open>Anchors\<close>

text \<open>\<^verbatim>\<open>AnchorID = string | string[] | ((id: string) => boolean) | undefined\<close>.\<close>

datatype AnchorID =
    IdUndefined
  | IdString string
  | IdArray "string list"
  | IdFunction "string \<Rightarrow> bool"

text \<open>
  \<^verbatim>\<open>useIsAnchored\<close>, given the value of the context. The first component is what it
  returns. The second lists the arguments with which a function-shaped id was called
  while it ran: line 153, \<^verbatim>\<open>return id(anchor)\<close>, is the only call in the body.
\<close>

definition useIsAnchored :: "AnchorID \<Rightarrow> URLSearchParams \<Rightarrow> bool \<times> string list" where
  "useIsAnchored aid searchParams =
     (case URLSearchParams_get searchParams ''anchor'' of
        None \<Rightarrow> (False, [])
      | Some anchor \<Rightarrow>
          (case aid of
             IdUndefined \<Rightarrow> (False, [])
           | IdString s \<Rightarrow> (s = anchor, [])
           | IdArray xs \<Rightarrow> (anchor \<in> set xs, [])
           | IdFunction f \<Rightarrow> (f anchor, [anchor])))"

text \<open>
  A \<^verbatim>\<open>URLSearchParams\<close> object as React sees it: the dependency list of an effect is
  compared with \<^verbatim>\<open>Object.is\<close>, which on objects is identity, so the object carries the
  address it was allocated at beside its list.
\<close>

record ParamsObject =
  ref :: nat
  entries :: URLSearchParams

text \<open>
  What React keeps for the effect of one \<^verbatim>\<open>useAnchor\<close> call site: the dependency list
  of the last commit (\<open>None\<close> before the first one), here
  \<^verbatim>\<open>[isAnchored, onReveal, searchParams]\<close> with the two objects by address; and, to
  observe the effect, the number of calls of \<^verbatim>\<open>onReveal\<close> so far.
\<close>

record AnchorHook =
  lastDeps :: "(bool \<times> nat \<times> nat) option"
  reveals :: nat

text \<open>
  One render of a component calling \<^verbatim>\<open>useAnchor(id, onReveal)\<close> and the commit that
  follows: \<^verbatim>\<open>React.useEffect\<close> runs the effect after the first render and after every
  render in which some dependency is not the same as at the last commit.
\<close>

definition useAnchor :: "AnchorID \<Rightarrow> nat \<Rightarrow> ParamsObject \<Rightarrow> AnchorHook \<Rightarrow> AnchorHook" where
  "useAnchor aid onReveal searchParams h =
     (let isAnchored = fst (useIsAnchored aid (entries searchParams));
          deps = (isAnchored, onReveal, ref searchParams)
      in if lastDeps h = Some deps then h
         else h\<lparr>lastDeps := Some deps,
                reveals := (if isAnchored then reveals h + 1 else reveals h)\<rparr>)"

text \<open>A subscriber over time: one render for each value the context takes, in order.\<close>

fun renders :: "AnchorID \<Rightarrow> nat \<Rightarrow> ParamsObject list \<Rightarrow> AnchorHook \<Rightarrow> AnchorHook" where
  "renders aid onReveal [] h = h"
| "renders aid onReveal (sp # sps) h = renders aid onReveal sps (useAnchor aid onReveal sp h)"

definition mountedHook :: AnchorHook where
  "mountedHook = \<lparr>lastDeps = None, reveals = 0\<rparr>"

section \<open>Navigation\<close>

text \<open>
  The window as far as the file touches it. The URL of the document is kept parsed:
  what stands before the fragment, and the fragment (\<open>None\<close> when the URL has none).
  \<open>history\<close> holds the session history up to the current entry, newest last.
  \<open>listeners\<close> are the \<^verbatim>\<open>popstate\<close> listeners in the order they were added; the only
  listener this file adds is the closure of line 108, one for each mounted
  \<^verbatim>\<open>SearchParamsProvider\<close>, named here by the provider's number. \<open>cells\<close> holds the
  \<^verbatim>\<open>useState\<close> cell of each provider and \<open>nextRef\<close> is the next free address.
\<close>

record Location =
  base :: string
  fragment :: "string option"

record Window =
  location :: Location
  history :: "Location list"
  listeners :: "nat list"
  cells :: "nat \<Rightarrow> ParamsObject option"
  nextRef :: nat

text \<open>\<^verbatim>\<open>window.location.hash\<close>: empty for no fragment or an empty one, else \<^verbatim>\<open>#\<close> and the fragment.\<close>

definition location_hash :: "Location \<Rightarrow> string" where
  "location_hash l =
     (case fragment l of None \<Rightarrow> [] | Some f \<Rightarrow> if f = [] then [] else CHR ''#'' # f)"

text \<open>
  \<^verbatim>\<open>window.history.pushState({}, '', href)\<close>. The host parses \<^verbatim>\<open>href\<close> against the URL of
  the document and checks that the page may take the result; \<open>parseUrl\<close> is that step,
  a parameter, \<open>None\<close> when it throws a \<^verbatim>\<open>SecurityError\<close>. The new entry becomes the
  current one. No event is fired.
\<close>

definition pushState :: "(string \<Rightarrow> Location \<Rightarrow> Location option) \<Rightarrow> string \<Rightarrow> Window
    \<Rightarrow> error + Window" where
  "pushState parseUrl href w =
     (case parseUrl href (location w) of
        None \<Rightarrow> Inl SecurityError
      | Some u \<Rightarrow> Inr (w\<lparr>location := u, history := history w @ [u]\<rparr>))"

text \<open>
  The listener of line 108, run for provider \<open>p\<close>:
  \<^verbatim>\<open>setSearchParams(new URLSearchParams(window.location.hash.slice(1)))\<close>.
\<close>

definition listener :: "Window \<Rightarrow> nat \<Rightarrow> Window" where
  "listener w p =
     w\<lparr>cells := (cells w)(p \<mapsto> \<lparr>ref = nextRef w,
                                  entries = parseFragment (location_hash (location w))\<rparr>),
       nextRef := Suc (nextRef w)\<rparr>"

text \<open>\<^verbatim>\<open>window.dispatchEvent(new PopStateEvent('popstate'))\<close>: the listeners run in order, at once.\<close>

definition dispatchPopstate :: "Window \<Rightarrow> Window" where
  "dispatchPopstate w = foldl listener w (listeners w)"

definition navigate :: "(string \<Rightarrow> Location \<Rightarrow> Location option) \<Rightarrow> string \<Rightarrow> Window
    \<Rightarrow> error + Window" where
  "navigate parseUrl href w =
     (case pushState parseUrl href w of
        Inl e \<Rightarrow> Inl e
      | Inr w' \<Rightarrow> Inr (dispatchPopstate w'))"

text \<open>
  \<^verbatim>\<open>SearchParamsProvider\<close> number \<open>p\<close> mounting (the initial state of line 105, then the
  effect of lines 107 to 111) and unmounting (the cleanup of line 110).
\<close>

definition mountProvider :: "nat \<Rightarrow> Window \<Rightarrow> Window" where
  "mountProvider p w =
     w\<lparr>cells := (cells w)(p \<mapsto> \<lparr>ref = nextRef w,
                                  entries = parseFragment (location_hash (location w))\<rparr>),
       nextRef := Suc (nextRef w),
       listeners := listeners w @ [p]\<rparr>"

definition unmountProvider :: "nat \<Rightarrow> Window \<Rightarrow> Window" where
  "unmountProvider p w = w\<lparr>listeners := removeAll p (listeners w), cells := (cells w)(p := None)\<rparr>"

section \<open>Serialising and parsing fragment parameters\<close>

subsection \<open>Decoding what was encoded\<close>

lemma percentDecode_plain:
  "c \<noteq> CHR ''%'' \<Longrightarrow> percentDecode (c # cs) = c # percentDecode cs"
proof (cases cs)
  case Nil
  then show ?thesis by simp
next
  case (Cons h t)
  assume "c \<noteq> CHR ''%''"
  then show ?thesis using Cons by (cases t) simp_all
qed

lemma percentDecode_escape:
  "isHex h \<Longrightarrow> isHex l \<Longrightarrow>
   percentDecode (CHR ''%'' # h # l # rest) = char_of (16 * hexVal h + hexVal l) # percentDecode rest"
  by simp

lemma lt16_cases:
  "k < (16::nat) \<Longrightarrow> k \<in> {0, 1, 2, 3, 4, 5, 6, 7, 8, 9, 10, 11, 12, 13, 14, 15}"
  by simp arith

lemma hexDigit_isHex: "k < 16 \<Longrightarrow> isHex (hexDigit k)"
  using lt16_cases [of k] by (auto simp: hexDigit_def isHex_def)

lemma hexDigit_hexVal: "k < 16 \<Longrightarrow> hexVal (hexDigit k) = k"
  using lt16_cases [of k] by (auto simp: hexDigit_def hexVal_def)

lemma hexDigit_alnum: "k < 16 \<Longrightarrow> isAlnum (hexDigit k)"
  using lt16_cases [of k] by (auto simp: hexDigit_def isAlnum_def)

lemma unreserved_not_special:
  "isUnreserved c \<Longrightarrow> c \<noteq> CHR ''+'' \<and> c \<noteq> CHR ''%'' \<and> c \<noteq> CHR ''&'' \<and> c \<noteq> CHR ''='' \<and> c \<noteq> CHR ''?''"
  by (auto simp: isUnreserved_def isAlnum_def)

lemma hexDigit_unreserved: "k < 16 \<Longrightarrow> isUnreserved (hexDigit k)"
  by (simp add: isUnreserved_def hexDigit_alnum)

lemma plusToSpace_append: "plusToSpace (a @ b) = plusToSpace a @ plusToSpace b"
  by (simp add: plusToSpace_def)

lemma byte_recombine: "char_of (16 * ((of_char c :: nat) div 16) + (of_char c :: nat) mod 16) = c"
  by simp

lemma of_char_div_16: "(of_char c :: nat) div 16 < 16"
proof -
  have "(of_char c :: nat) < 256"
    by (metis of_char_mod_256 mod_less_divisor zero_less_numeral)
  then show ?thesis by arith
qed

lemma decode_urlencodeByte:
  "decodeComponent (urlencodeByte c @ s) = c # decodeComponent s"
proof -
  let ?n = "of_char c :: nat"
  consider (space) "c = CHR '' ''" | (keep) "c \<noteq> CHR '' ''" "isUnreserved c"
    | (esc) "c \<noteq> CHR '' ''" "\<not> isUnreserved c" by blast
  then show ?thesis
  proof cases
    case space
    then show ?thesis
      by (simp add: urlencodeByte_def decodeComponent_def plusToSpace_def percentDecode_plain)
  next
    case keep
    then have "c \<noteq> CHR ''+''" "c \<noteq> CHR ''%''"
      using unreserved_not_special by blast+
    with keep show ?thesis
      by (simp add: urlencodeByte_def decodeComponent_def plusToSpace_def percentDecode_plain)
  next
    case esc
    let ?h = "hexDigit (?n div 16)" and ?l = "hexDigit (?n mod 16)"
    have hx: "isHex ?h" "isHex ?l"
      by (simp_all add: hexDigit_isHex of_char_div_16)
    have np: "?h \<noteq> CHR ''+''" "?l \<noteq> CHR ''+''"
      using unreserved_not_special hexDigit_unreserved of_char_div_16
      by (metis, metis mod_less_divisor zero_less_numeral unreserved_not_special hexDigit_unreserved)
    have "decodeComponent (urlencodeByte c @ s) = percentDecode (CHR ''%'' # ?h # ?l # plusToSpace s)"
      using esc np by (simp add: urlencodeByte_def decodeComponent_def plusToSpace_def)
    also have "\<dots> = char_of (16 * hexVal ?h + hexVal ?l) # percentDecode (plusToSpace s)"
      using hx by (rule percentDecode_escape)
    also have "16 * hexVal ?h + hexVal ?l = 16 * (?n div 16) + ?n mod 16"
      by (simp add: hexDigit_hexVal of_char_div_16)
    finally show ?thesis
      by (simp add: decodeComponent_def)
  qed
qed

lemma decode_urlencode: "decodeComponent (urlencode s) = s"
proof (induction s)
  case Nil
  then show ?case by (simp add: urlencode_def decodeComponent_def plusToSpace_def)
next
  case (Cons c s)
  have "urlencode (c # s) = urlencodeByte c @ urlencode s"
    by (simp add: urlencode_def)
  then show ?case using Cons by (simp add: decode_urlencodeByte)
qed

lemma urlencodeByte_chars:
  "x \<in> set (urlencodeByte c) \<Longrightarrow> x = CHR ''+'' \<or> x = CHR ''%'' \<or> isUnreserved x"
  using hexDigit_unreserved [of "(of_char c :: nat) div 16"] hexDigit_unreserved [of "(of_char c :: nat) mod 16"]
  by (auto simp: urlencodeByte_def of_char_div_16 split: if_splits)

lemma urlencode_chars:
  "x \<in> set (urlencode s) \<Longrightarrow> x = CHR ''+'' \<or> x = CHR ''%'' \<or> isUnreserved x"
  by (auto simp: urlencode_def dest: urlencodeByte_chars)

lemma urlencode_no_separator:
  "CHR ''&'' \<notin> set (urlencode s)" "CHR ''='' \<notin> set (urlencode s)" "CHR ''?'' \<notin> set (urlencode s)"
  using urlencode_chars unreserved_not_special by blast+

lemma parsePair_serializePair: "parsePair (serializePair p) = p"
proof -
  have nk: "\<forall>x \<in> set (urlencode (fst p)). x \<noteq> CHR ''=''"
    using urlencode_no_separator(2) by blast
  have t: "takeWhile (\<lambda>c. c \<noteq> CHR ''='') (serializePair p) = urlencode (fst p)"
    using nk by (simp add: serializePair_def)
  have d: "dropWhile (\<lambda>c. c \<noteq> CHR ''='') (serializePair p) = CHR ''='' # urlencode (snd p)"
    using nk by (simp add: serializePair_def)
  show ?thesis
    by (simp add: parsePair_def t d decode_urlencode)
qed

lemma splitOn_single: "d \<notin> set x \<Longrightarrow> splitOn d x = [x]"
  by (induction x) auto

lemma splitOn_append: "d \<notin> set x \<Longrightarrow> splitOn d (x @ d # r) = x # splitOn d r"
  by (induction x) auto

lemma splitOn_joinWith:
  "xs \<noteq> [] \<Longrightarrow> (\<forall>x \<in> set xs. d \<notin> set x) \<Longrightarrow> splitOn d (joinWith [d] xs) = xs"
proof (induction "[d]" xs rule: joinWith.induct)
  case 1
  then show ?case by simp
next
  case (2 x)
  then show ?case by (simp add: splitOn_single)
next
  case (3 x y ys)
  then show ?case by (simp add: splitOn_append)
qed

lemma serializePair_shape:
  "serializePair p \<noteq> []" "CHR ''&'' \<notin> set (serializePair p)" "CHR ''?'' \<notin> set (serializePair p)"
  using urlencode_no_separator by (auto simp: serializePair_def)

lemma urlencodedParse_toString: "urlencodedParse (URLSearchParams_toString ps) = ps"
proof (cases ps)
  case Nil
  then show ?thesis by (simp add: urlencodedParse_def URLSearchParams_toString_def)
next
  case (Cons p ps')
  let ?segs = "map serializePair ps"
  have "splitOn CHR ''&'' (joinWith ''&'' ?segs) = ?segs"
    using Cons serializePair_shape(2) by (intro splitOn_joinWith) auto
  moreover have "filter (\<lambda>seg. seg \<noteq> []) ?segs = ?segs"
    using serializePair_shape(1) by (simp add: filter_id_conv)
  ultimately show ?thesis
    by (simp add: urlencodedParse_def URLSearchParams_toString_def parsePair_serializePair o_def)
qed

lemma joinWith_chars:
  "x \<in> set (joinWith sep xs) \<Longrightarrow> x \<in> set sep \<or> (\<exists>s \<in> set xs. x \<in> set s)"
  by (induction sep xs rule: joinWith.induct) auto

lemma toString_no_question: "CHR ''?'' \<notin> set (URLSearchParams_toString ps)"
proof
  assume "CHR ''?'' \<in> set (URLSearchParams_toString ps)"
  then have "CHR ''?'' \<in> set ''&'' \<or> (\<exists>s \<in> set (map serializePair ps). CHR ''?'' \<in> set s)"
    unfolding URLSearchParams_toString_def by (rule joinWith_chars)
  then show False using serializePair_shape(3) by auto
qed

lemma new_URLSearchParams_toString: "new_URLSearchParams (URLSearchParams_toString ps) = ps"
proof -
  have "case URLSearchParams_toString ps of [] \<Rightarrow> True | c # cs \<Rightarrow> c \<noteq> CHR ''?''"
    using toString_no_question [of ps] by (cases "URLSearchParams_toString ps") auto
  then have "stripQuestion (URLSearchParams_toString ps) = URLSearchParams_toString ps"
    by (cases "URLSearchParams_toString ps") (auto simp: stripQuestion_def)
  then show ?thesis
    by (simp add: new_URLSearchParams_def urlencodedParse_toString)
qed

lemma parseFragment_of_href: "parseFragment (''#?'' @ URLSearchParams_toString ps) = ps"
  by (simp add: parseFragment_def new_URLSearchParams_def stripQuestion_def urlencodedParse_toString)

lemma splitOn_all_empty: "(\<forall>seg \<in> set (splitOn d s). seg = []) = (set s \<subseteq> {d})"
  by (induction s) auto

lemma urlencodedParse_empty: "(urlencodedParse s = []) = (set s \<subseteq> {CHR ''&''})"
proof -
  have "(urlencodedParse s = []) = (\<forall>seg \<in> set (splitOn CHR ''&'' s). seg = [])"
    by (auto simp: urlencodedParse_def filter_empty_conv)
  then show ?thesis by (simp only: splitOn_all_empty)
qed

lemma splitOn_pieces: "length (filter (\<lambda>seg. seg \<noteq> []) (splitOn d s)) \<le> length s"
proof (induction s)
  case Nil
  then show ?case by simp
next
  case (Cons c cs)
  let ?r = "splitOn d cs"
  have "?r \<noteq> []" by (cases cs) auto
  then have r: "?r = hd ?r # tl ?r" by simp
  have "length (filter (\<lambda>seg. seg \<noteq> []) (tl ?r)) \<le> length (filter (\<lambda>seg. seg \<noteq> []) ?r)"
    by (subst (2) r) simp
  with Cons show ?case by auto
qed

lemma length_stripQuestion: "length (stripQuestion s) \<le> length s"
  by (cases s) (simp_all add: stripQuestion_def)

text \<open>
  C9. Parsing the serialised form of fragment parameters gives the parameters back:
  the same pairs in the same order, hence the same order of keys and, for each key, the
  same values with their repetitions. The serialised form is the one \<^verbatim>\<open>testResultHref\<close>
  writes, \<^verbatim>\<open>'#?' + params\<close>, and the parser the one the provider applies to
  \<^verbatim>\<open>window.location.hash\<close>. It holds for all names and values, whatever their bytes, so
  also for the ASCII ones without reserved characters.
\<close>

theorem fragment_roundtrip:
  "parseFragment (''#?'' @ URLSearchParams_toString P) = P
   \<and> new_URLSearchParams (URLSearchParams_toString P) = P
   \<and> map fst (parseFragment (''#?'' @ URLSearchParams_toString P)) = map fst P
   \<and> (\<forall>k. map snd (filter (\<lambda>p. fst p = k) (parseFragment (''#?'' @ URLSearchParams_toString P)))
          = map snd (filter (\<lambda>p. fst p = k) P))"
  using parseFragment_of_href [of P] by (simp add: new_URLSearchParams_toString)

text \<open>
  C8, as the claim states it, fails: a fragment with a malformed percent escape does not
  parse to the empty parameter set. The escape is kept as it is written, as a name.
\<close>

theorem malformed_fragment_kept: "parseFragment ''#%zz'' = [(''%zz'', '''')]"
  by (simp add: parseFragment_def new_URLSearchParams_def stripQuestion_def urlencodedParse_def
      parsePair_def decodeComponent_def plusToSpace_def isHex_def)

text \<open>
  C8, amended. Parsing a fragment is total: it is a function from strings to parameter
  lists with no error result, giving at most one pair for each character read. The empty
  fragment, \<^verbatim>\<open>#\<close> and \<^verbatim>\<open>#?\<close> give the empty parameter set; in general the result is empty
  exactly when nothing but \<^verbatim>\<open>&\<close> follows the leading \<^verbatim>\<open>#\<close> and one optional \<^verbatim>\<open>?\<close>.
  Any other fragment, malformed or not, gives a set that is not empty.
\<close>

theorem parseFragment_total_empty:
  "(parseFragment h = []) = (set (stripQuestion (drop 1 h)) \<subseteq> {CHR ''&''})
   \<and> parseFragment [] = []
   \<and> parseFragment ''#'' = []
   \<and> parseFragment ''#?'' = []
   \<and> length (parseFragment h) \<le> length h"
proof -
  have e: "(parseFragment h = []) = (set (stripQuestion (drop 1 h)) \<subseteq> {CHR ''&''})"
    by (simp add: parseFragment_def new_URLSearchParams_def urlencodedParse_empty)
  have "length (stripQuestion (drop 1 h)) \<le> length (drop 1 h)"
    by (rule length_stripQuestion)
  then have "length (stripQuestion (drop 1 h)) \<le> length h"
    by simp
  then have l: "length (parseFragment h) \<le> length h"
    using splitOn_pieces [of "CHR ''&''" "stripQuestion (drop 1 h)"]
    by (simp add: parseFragment_def new_URLSearchParams_def urlencodedParse_def)
  have c: "parseFragment [] = []" "parseFragment ''#'' = []" "parseFragment ''#?'' = []"
    by (simp_all add: parseFragment_def new_URLSearchParams_def stripQuestion_def urlencodedParse_def)
  from e l c show ?thesis by simp
qed

section \<open>Links to test results\<close>

lemma get_None_iff: "(URLSearchParams_get ps k = None) = (k \<notin> fst ` set ps)"
  by (induction ps) (auto split: if_splits)

lemma key_present_iff: "(k \<in> fst ` set ps) = (URLSearchParams_get ps k \<noteq> None)"
  by (simp add: get_None_iff)

lemma indexFrom_first:
  "indexFrom k xs r =
     (if address r \<in> address ` set xs
      then k + int (length (takeWhile (\<lambda>x. address x \<noteq> address r) xs))
      else -1)"
  by (induction xs arbitrary: k) auto

lemma decimal_digit: "n < 10 \<Longrightarrow> decimal n = [digitChar n]"
  by (simp add: decimal.simps)

lemma numberToString_small:
  "numberToString (-1) = ''-1''" "numberToString 0 = ''0''" "numberToString 1 = ''1''"
  by (simp_all add: numberToString_def decimal_digit digitChar_def)

lemma testResultParams_list:
  "testResultParams test result anchor filt =
     (case test of None \<Rightarrow> [] | Some t \<Rightarrow> [(''testId'', testId t)])
     @ (case test of None \<Rightarrow> []
        | Some t \<Rightarrow> (case result of None \<Rightarrow> []
            | Some r \<Rightarrow> [(''run'', numberToString (indexOf (results t) r))]))
     @ (case anchor of None \<Rightarrow> [] | Some a \<Rightarrow> if a = [] then [] else [(''anchor'', a)])
     @ (case filt of None \<Rightarrow> []
        | Some f \<Rightarrow> (case URLSearchParams_get f ''q'' of None \<Rightarrow> []
            | Some q \<Rightarrow> if q = [] then [] else [(''q'', q)]))"
  by (simp add: testResultParams_def URLSearchParams_set_def Let_def split: option.splits)

lemmas urlencode_eval =
  URLSearchParams_toString_def serializePair_def urlencode_def urlencodeByte_def
  isUnreserved_def isAlnum_def

text \<open>
  C3, as the claim states it, fails: \<^verbatim>\<open>testResultHref({anchor: ''})\<close> is given an
  anchor, and line 177, \<^verbatim>\<open>if (anchor)\<close>, leaves it out of the fragment because the empty
  string is falsy.
\<close>

theorem empty_anchor_omitted:
  "''anchor'' \<notin> fst ` set (testResultParams (None :: unit TestCase option) None (Some '''') None)
   \<and> testResultHref (None :: unit TestCase option) None (Some '''') None = ''#?''"
  by (simp add: testResultHref_def testResultParams_list URLSearchParams_toString_def)

text \<open>
  C3, amended. For every input of \<^verbatim>\<open>testResultHref\<close>, the fragment holds \<^verbatim>\<open>testId\<close>
  exactly when a test is given, \<^verbatim>\<open>run\<close> exactly when both a test and a result are given,
  and \<^verbatim>\<open>anchor\<close> exactly when an anchor is given that is not the empty string; the value
  of \<^verbatim>\<open>run\<close> is the position of the first entry of \<^verbatim>\<open>test.results\<close> that is the very
  object \<^verbatim>\<open>result\<close> (compared by address, whatever the objects hold) and \<^verbatim>\<open>-1\<close> when
  there is none. Without a filter the parameters are these fields, in this order, and
  nothing else: a field left out has no placeholder. For the test \<^verbatim>\<open>T1\<close> with results
  \<^verbatim>\<open>[r0, r1]\<close> and the result \<^verbatim>\<open>r1\<close> the fragment is \<^verbatim>\<open>#?testId=T1&run=1\<close>.
\<close>

theorem testResultHref_fields:
  "(''testId'' \<in> fst ` set (testResultParams test result anchor filt)) = (test \<noteq> None)
   \<and> (''run'' \<in> fst ` set (testResultParams test result anchor filt))
        = (test \<noteq> None \<and> result \<noteq> None)
   \<and> (''anchor'' \<in> fst ` set (testResultParams test result anchor filt))
        = (\<exists>a. anchor = Some a \<and> a \<noteq> [])
   \<and> URLSearchParams_get (testResultParams test result anchor filt) ''testId''
        = map_option testId test
   \<and> URLSearchParams_get (testResultParams test result anchor filt) ''run''
        = (case test of None \<Rightarrow> None
           | Some t \<Rightarrow> map_option (\<lambda>r. numberToString (indexOf (results t) r)) result)
   \<and> URLSearchParams_get (testResultParams test result anchor filt) ''anchor''
        = (case anchor of None \<Rightarrow> None | Some a \<Rightarrow> if a = [] then None else Some a)
   \<and> testResultParams test result anchor None
        = (case test of None \<Rightarrow> [] | Some t \<Rightarrow> [(''testId'', testId t)])
          @ (case test of None \<Rightarrow> []
             | Some t \<Rightarrow> (case result of None \<Rightarrow> []
                 | Some r \<Rightarrow> [(''run'', numberToString (indexOf (results t) r))]))
          @ (case anchor of None \<Rightarrow> [] | Some a \<Rightarrow> if a = [] then [] else [(''anchor'', a)])
   \<and> indexOf xs r
        = (if address r \<in> address ` set xs
           then int (length (takeWhile (\<lambda>x. address x \<noteq> address r) xs)) else -1)
   \<and> testResultHref
        (Some \<lparr>testId = ''T1'',
               results = [\<lparr>address = 0, payload = v\<rparr>, \<lparr>address = 1, payload = v\<rparr>]\<rparr>)
        (Some \<lparr>address = 1, payload = v\<rparr>) None None
        = ''#?testId=T1&run=1''
   \<and> testResultHref None None (Some ''attachment-2'') None = ''#?anchor=attachment-2''"
proof -
  let ?ps = "testResultParams test result anchor filt"
  have g1: "URLSearchParams_get ?ps ''testId'' = map_option testId test"
    by (simp add: testResultParams_list split: option.splits)
  have g2: "URLSearchParams_get ?ps ''run''
      = (case test of None \<Rightarrow> None
         | Some t \<Rightarrow> map_option (\<lambda>r. numberToString (indexOf (results t) r)) result)"
    by (simp add: testResultParams_list split: option.splits)
  have g3: "URLSearchParams_get ?ps ''anchor''
      = (case anchor of None \<Rightarrow> None | Some a \<Rightarrow> if a = [] then None else Some a)"
    by (simp add: testResultParams_list split: option.splits)
  have k1: "(''testId'' \<in> fst ` set ?ps) = (test \<noteq> None)"
    by (simp add: key_present_iff g1)
  have k2: "(''run'' \<in> fst ` set ?ps) = (test \<noteq> None \<and> result \<noteq> None)"
    by (simp add: key_present_iff g2 split: option.splits)
  have k3: "(''anchor'' \<in> fst ` set ?ps) = (\<exists>a. anchor = Some a \<and> a \<noteq> [])"
    by (simp add: key_present_iff g3 split: option.splits)
  have l: "testResultParams test result anchor None
        = (case test of None \<Rightarrow> [] | Some t \<Rightarrow> [(''testId'', testId t)])
          @ (case test of None \<Rightarrow> []
             | Some t \<Rightarrow> (case result of None \<Rightarrow> []
                 | Some r \<Rightarrow> [(''run'', numberToString (indexOf (results t) r))]))
          @ (case anchor of None \<Rightarrow> [] | Some a \<Rightarrow> if a = [] then [] else [(''anchor'', a)])"
    by (simp add: testResultParams_list)
  have i: "indexOf xs r
        = (if address r \<in> address ` set xs
           then int (length (takeWhile (\<lambda>x. address x \<noteq> address r) xs)) else -1)"
    by (simp add: indexOf_def indexFrom_first)
  have e1: "testResultHref
        (Some \<lparr>testId = ''T1'',
               results = [\<lparr>address = 0, payload = v\<rparr>, \<lparr>address = 1, payload = v\<rparr>]\<rparr>)
        (Some \<lparr>address = 1, payload = v\<rparr>) None None
        = ''#?testId=T1&run=1''"
    by (simp add: testResultHref_def testResultParams_list indexOf_def numberToString_small
        urlencode_eval)
  have e2: "testResultHref None None (Some ''attachment-2'') None = ''#?anchor=attachment-2''"
    by (simp add: testResultHref_def testResultParams_list urlencode_eval)
  from k1 k2 k3 g1 g2 g3 l i e1 e2 show ?thesis by blast
qed

text \<open>
  C5. The fragment of \<^verbatim>\<open>testResultHref\<close> holds \<^verbatim>\<open>q\<close> exactly when a filter is given
  whose \<^verbatim>\<open>q\<close> (what \<^verbatim>\<open>filter.get('q')\<close> reads, the first \<^verbatim>\<open>q\<close> of the filter) is present
  and not empty, and then \<^verbatim>\<open>q\<close> carries that value, after the other fields. With no
  filter, a filter without \<^verbatim>\<open>q\<close> or an empty \<^verbatim>\<open>q\<close>, the parameters are those built
  without a filter, and none of them is \<^verbatim>\<open>q\<close>.
\<close>

theorem testResultHref_carries_q:
  "testResultParams test result anchor filt
     = testResultParams test result anchor None
       @ (case filt of None \<Rightarrow> []
          | Some f \<Rightarrow> (case URLSearchParams_get f ''q'' of None \<Rightarrow> []
              | Some q \<Rightarrow> if q = [] then [] else [(''q'', q)]))
   \<and> ''q'' \<notin> fst ` set (testResultParams test result anchor None)
   \<and> (''q'' \<in> fst ` set (testResultParams test result anchor filt))
        = (\<exists>f q. filt = Some f \<and> URLSearchParams_get f ''q'' = Some q \<and> q \<noteq> [])
   \<and> URLSearchParams_get (testResultParams test result anchor filt) ''q''
        = (case filt of None \<Rightarrow> None
           | Some f \<Rightarrow> (case URLSearchParams_get f ''q'' of None \<Rightarrow> None
               | Some q \<Rightarrow> if q = [] then None else Some q))
   \<and> testResultHref (Some \<lparr>testId = ''T1'', results = []\<rparr>) None None
        (Some [(''testId'', ''T0''), (''q'', ''foo'')]) = ''#?testId=T1&q=foo''
   \<and> testResultHref (Some \<lparr>testId = ''T1'', results = []\<rparr>) None None
        (Some [(''q'', '''')]) = ''#?testId=T1''
   \<and> testResultHref (Some \<lparr>testId = ''T1'', results = []\<rparr>) None None
        (Some [(''testId'', ''T0'')]) = ''#?testId=T1''
   \<and> testResultHref (Some \<lparr>testId = ''T1'', results = []\<rparr>) None None None = ''#?testId=T1''"
proof -
  let ?ps = "testResultParams test result anchor filt"
  have a: "?ps = testResultParams test result anchor None
       @ (case filt of None \<Rightarrow> []
          | Some f \<Rightarrow> (case URLSearchParams_get f ''q'' of None \<Rightarrow> []
              | Some q \<Rightarrow> if q = [] then [] else [(''q'', q)]))"
    by (simp add: testResultParams_list)
  have g: "URLSearchParams_get ?ps ''q''
        = (case filt of None \<Rightarrow> None
           | Some f \<Rightarrow> (case URLSearchParams_get f ''q'' of None \<Rightarrow> None
               | Some q \<Rightarrow> if q = [] then None else Some q))"
    by (simp add: testResultParams_list split: option.splits)
  have "URLSearchParams_get (testResultParams test result anchor None) ''q'' = None"
    by (simp add: testResultParams_list split: option.splits)
  then have n: "''q'' \<notin> fst ` set (testResultParams test result anchor None)"
    by (simp add: get_None_iff)
  have k: "(''q'' \<in> fst ` set ?ps)
        = (\<exists>f q. filt = Some f \<and> URLSearchParams_get f ''q'' = Some q \<and> q \<noteq> [])"
    by (simp add: key_present_iff g split: option.splits)
  have e: "testResultHref (Some \<lparr>testId = ''T1'', results = []\<rparr>) None None
        (Some [(''testId'', ''T0''), (''q'', ''foo'')]) = ''#?testId=T1&q=foo''"
    "testResultHref (Some \<lparr>testId = ''T1'', results = []\<rparr>) None None
        (Some [(''q'', '''')]) = ''#?testId=T1''"
    "testResultHref (Some \<lparr>testId = ''T1'', results = []\<rparr>) None None
        (Some [(''testId'', ''T0'')]) = ''#?testId=T1''"
    "testResultHref (Some \<lparr>testId = ''T1'', results = []\<rparr>) None None None = ''#?testId=T1''"
    by (simp_all add: testResultHref_def testResultParams_list urlencode_eval)
  from a n k g e show ?thesis by blast
qed

text \<open>
  C6. When the result is not one of the objects in \<^verbatim>\<open>test.results\<close>, \<^verbatim>\<open>testResultHref\<close>
  still returns a fragment (it has no error result): \<^verbatim>\<open>indexOf\<close> gives \<^verbatim>\<open>-1\<close> and the
  fragment carries \<^verbatim>\<open>run=-1\<close>.
\<close>

theorem result_not_member_sentinel:
  assumes "address r \<notin> address ` set (results t)"
  shows "indexOf (results t) r = -1
    \<and> URLSearchParams_get (testResultParams (Some t) (Some r) anchor filt) ''run'' = Some ''-1''
    \<and> testResultHref (Some t) (Some r) None None
        = ''#?testId='' @ urlencode (testId t) @ ''&run=-1''"
proof -
  have i: "indexOf (results t) r = -1"
    using assms by (simp add: indexOf_def indexFrom_first)
  then have g: "URLSearchParams_get (testResultParams (Some t) (Some r) anchor filt) ''run'' = Some ''-1''"
    by (simp add: testResultParams_list numberToString_small)
  have "urlencode ''-1'' = ''-1''"
    by (simp add: urlencode_def urlencodeByte_def isUnreserved_def isAlnum_def)
  moreover have "urlencode ''run'' = ''run''" "urlencode ''testId'' = ''testId''"
    by (simp_all add: urlencode_def urlencodeByte_def isUnreserved_def isAlnum_def)
  ultimately have h: "testResultHref (Some t) (Some r) None None
        = ''#?testId='' @ urlencode (testId t) @ ''&run=-1''"
    using i by (simp add: testResultHref_def testResultParams_list numberToString_small
        URLSearchParams_toString_def serializePair_def)
  from i g h show ?thesis by blast
qed

theorem result_not_member_sentinel_witness:
  "address \<lparr>address = 1, payload = ''passed''\<rparr>
     \<notin> address ` set (results \<lparr>testId = ''T1'', results = [\<lparr>address = 0, payload = ''passed''\<rparr>]\<rparr>)
   \<and> indexOf [\<lparr>address = 0, payload = ''passed''\<rparr>] \<lparr>address = 1, payload = ''passed''\<rparr> = -1
   \<and> testResultHref (Some \<lparr>testId = ''T1'', results = [\<lparr>address = 0, payload = ''passed''\<rparr>]\<rparr>)
        (Some \<lparr>address = 1, payload = ''passed''\<rparr>) None None = ''#?testId=T1&run=-1''"
proof -
  have h: "address \<lparr>address = 1, payload = ''passed''\<rparr>
     \<notin> address ` set (results \<lparr>testId = ''T1'', results = [\<lparr>address = 0, payload = ''passed''\<rparr>]\<rparr>)"
    by simp
  have "urlencode ''T1'' = ''T1''"
    by (simp add: urlencode_def urlencodeByte_def isUnreserved_def isAlnum_def)
  then show ?thesis
    using h result_not_member_sentinel [OF h, of None None] by simp
qed

section \<open>The trace viewer link\<close>

lemma traceEntries_resolved:
  "\<forall>a \<in> set traces. \<exists>p u. path a = Some p \<and> newURL p href = Some u \<Longrightarrow>
   traceEntries newURL href traces
     = Inr (map (\<lambda>a. ''trace='' @ the (newURL (the (path a)) href)) traces)"
  by (induction traces) auto

lemma traceEntries_refused:
  "\<exists>a \<in> set traces. newURL (case path a of None \<Rightarrow> ''undefined'' | Some p \<Rightarrow> p) href = None \<Longrightarrow>
   traceEntries newURL href traces = Inl TypeError"
proof (induction traces)
  case Nil
  then show ?case by simp
next
  case (Cons a as)
  show ?case
  proof (cases "newURL (case path a of None \<Rightarrow> ''undefined'' | Some p \<Rightarrow> p) href")
    case None
    then show ?thesis by simp
  next
    case (Some u)
    with Cons.prems have "\<exists>b \<in> set as.
        newURL (case path b of None \<Rightarrow> ''undefined'' | Some p \<Rightarrow> p) href = None"
      by auto
    then have "traceEntries newURL href as = Inl TypeError"
      by (rule Cons.IH)
    with Some show ?thesis by simp
  qed
qed

lemma splitOn_step:
  "splitOn d [] = [[]]"
  "splitOn d (c # cs) =
     (if c = d then [] # splitOn d cs
      else (case splitOn d cs of [] \<Rightarrow> [[c]] | x # xs \<Rightarrow> (c # x) # xs))"
  by (simp_all split: list.splits) (cases cs; simp)

lemma urlQuery_trace:
  assumes "CHR ''#'' \<notin> set q"
  shows "urlQuery (''trace/index.html?'' @ q) = q"
proof -
  have "takeWhile (\<lambda>c. c \<noteq> CHR ''#'') (''trace/index.html?'' @ q) = ''trace/index.html?'' @ q"
    using assms by (intro takeWhile_eq_all_conv [THEN iffD2]) auto
  then show ?thesis
    by (simp add: urlQuery_def)
qed

lemma queryEntries_joined:
  assumes "\<forall>e \<in> set es. e \<noteq> [] \<and> CHR ''&'' \<notin> set e \<and> CHR ''#'' \<notin> set e"
  shows "queryEntries (''trace/index.html?'' @ joinWith ''&'' es) = es"
proof -
  have "CHR ''#'' \<notin> set (joinWith ''&'' es)"
    using assms joinWith_chars [of "CHR ''#''" "''&''" es] by auto
  then have q: "urlQuery (''trace/index.html?'' @ joinWith ''&'' es) = joinWith ''&'' es"
    by (rule urlQuery_trace)
  have f: "filter (\<lambda>seg. seg \<noteq> []) es = es"
    using assms by (simp add: filter_id_conv)
  show ?thesis
  proof (cases es)
    case Nil
    have "urlQuery ''trace/index.html?'' = []"
      using urlQuery_trace [of "[]"] by simp
    with Nil show ?thesis by (simp add: queryEntries_def)
  next
    case (Cons e es')
    then have "splitOn CHR ''&'' (joinWith ''&'' es) = es"
      using assms by (intro splitOn_joinWith) auto
    then show ?thesis
      unfolding queryEntries_def q by (simp only: f)
  qed
qed

text \<open>
  C4, as the claim states it, fails, with the paths and the page location standing in
  the URL as the host resolves them. A path with a query of its own,
  \<^verbatim>\<open>a.zip?x=1&trace=evil.zip\<close>, is not escaped, so the one attachment gives the query
  string two entries, and neither value is the resolved URL. A path with a fragment,
  \<^verbatim>\<open>a.zip#x\<close>, ends the query string, so of two attachments one entry is left. A path the
  URL constructor refuses, \<^verbatim>\<open>http://[::1\<close>, makes \<^verbatim>\<open>generateTraceUrl\<close> throw.
\<close>

theorem trace_entries_not_one_per_attachment:
  "generateTraceUrl exampleHost ''https://x/report/''
     [\<lparr>name = ''trace'', contentType = ''application/zip'',
       path = Some ''a.zip?x=1&trace=evil.zip'', body = None\<rparr>]
     = Inr ''trace/index.html?trace=https://x/report/a.zip?x=1&trace=evil.zip''
   \<and> queryEntries ''trace/index.html?trace=https://x/report/a.zip?x=1&trace=evil.zip''
     = [''trace=https://x/report/a.zip?x=1'', ''trace=evil.zip'']
   \<and> generateTraceUrl exampleHost ''https://x/report/''
     [\<lparr>name = ''trace'', contentType = ''application/zip'', path = Some ''a.zip#x'', body = None\<rparr>,
      \<lparr>name = ''trace'', contentType = ''application/zip'', path = Some ''b.zip'', body = None\<rparr>]
     = Inr ''trace/index.html?trace=https://x/report/a.zip#x&trace=https://x/report/b.zip''
   \<and> queryEntries ''trace/index.html?trace=https://x/report/a.zip#x&trace=https://x/report/b.zip''
     = [''trace=https://x/report/a.zip'']
   \<and> generateTraceUrl exampleHost ''https://x/report/''
     [\<lparr>name = ''trace'', contentType = ''application/zip'', path = Some ''http://[::1'', body = None\<rparr>]
     = Inl TypeError"
proof -
  have a: "generateTraceUrl exampleHost ''https://x/report/''
     [\<lparr>name = ''trace'', contentType = ''application/zip'',
       path = Some ''a.zip?x=1&trace=evil.zip'', body = None\<rparr>]
     = Inr ''trace/index.html?trace=https://x/report/a.zip?x=1&trace=evil.zip''"
    by (simp add: generateTraceUrl_def exampleHost_def)
  have b: "queryEntries ''trace/index.html?trace=https://x/report/a.zip?x=1&trace=evil.zip''
     = [''trace=https://x/report/a.zip?x=1'', ''trace=evil.zip'']"
    by (simp add: queryEntries_def urlQuery_def splitOn_step(2) del: splitOn.simps(2))
  have c: "generateTraceUrl exampleHost ''https://x/report/''
     [\<lparr>name = ''trace'', contentType = ''application/zip'', path = Some ''a.zip#x'', body = None\<rparr>,
      \<lparr>name = ''trace'', contentType = ''application/zip'', path = Some ''b.zip'', body = None\<rparr>]
     = Inr ''trace/index.html?trace=https://x/report/a.zip#x&trace=https://x/report/b.zip''"
    by (simp add: generateTraceUrl_def exampleHost_def)
  have d: "queryEntries ''trace/index.html?trace=https://x/report/a.zip#x&trace=https://x/report/b.zip''
     = [''trace=https://x/report/a.zip'']"
    by (simp add: queryEntries_def urlQuery_def splitOn_step(2) del: splitOn.simps(2))
  have e: "generateTraceUrl exampleHost ''https://x/report/''
     [\<lparr>name = ''trace'', contentType = ''application/zip'', path = Some ''http://[::1'', body = None\<rparr>]
     = Inl TypeError"
    by (simp add: generateTraceUrl_def exampleHost_def)
  from a b c d e show ?thesis by (intro conjI)
qed

text \<open>
  C4, amended. For a list of attachments that each have a path, when the host's URL
  constructor resolves every path against the page location, \<^verbatim>\<open>generateTraceUrl\<close>
  returns \<^verbatim>\<open>trace/index.html?\<close> followed by one piece \<^verbatim>\<open>trace=\<close>\<open>url\<close> for each
  attachment, in the order of the list, joined with \<^verbatim>\<open>&\<close>, where \<open>url\<close> is the
  attachment's path resolved against the page location. When moreover no resolved URL
  holds an \<^verbatim>\<open>&\<close> or a \<^verbatim>\<open>#\<close>, these pieces are the entries of the query string of the
  result, one for each attachment. When the constructor refuses the path of some
  attachment, \<^verbatim>\<open>generateTraceUrl\<close> throws its \<^verbatim>\<open>TypeError\<close>. For the paths \<^verbatim>\<open>a.zip\<close>
  and \<^verbatim>\<open>b.zip\<close> on the page \<^verbatim>\<open>https://x/report/\<close> the result is
  \<^verbatim>\<open>trace/index.html?trace=https://x/report/a.zip&trace=https://x/report/b.zip\<close>.
\<close>

theorem generateTraceUrl_entries:
  "((\<forall>a \<in> set traces. \<exists>p u. path a = Some p \<and> newURL p href = Some u) \<longrightarrow>
      generateTraceUrl newURL href traces
        = Inr (''trace/index.html?''
            @ joinWith ''&'' (map (\<lambda>a. ''trace='' @ the (newURL (the (path a)) href)) traces))
      \<and> ((\<forall>a \<in> set traces. CHR ''&'' \<notin> set (the (newURL (the (path a)) href))
                            \<and> CHR ''#'' \<notin> set (the (newURL (the (path a)) href)))
          \<longrightarrow> map_sum id queryEntries (generateTraceUrl newURL href traces)
              = Inr (map (\<lambda>a. ''trace='' @ the (newURL (the (path a)) href)) traces)))
   \<and> ((\<exists>a \<in> set traces.
          newURL (case path a of None \<Rightarrow> ''undefined'' | Some p \<Rightarrow> p) href = None)
        \<longrightarrow> generateTraceUrl newURL href traces = Inl TypeError)"
proof (intro conjI impI)
  let ?es = "map (\<lambda>a. ''trace='' @ the (newURL (the (path a)) href)) traces"
  assume r: "\<forall>a \<in> set traces. \<exists>p u. path a = Some p \<and> newURL p href = Some u"
  show g: "generateTraceUrl newURL href traces = Inr (''trace/index.html?'' @ joinWith ''&'' ?es)"
    using r traceEntries_resolved [where traces = traces and newURL = newURL and href = href]
    by (simp add: generateTraceUrl_def)
  assume n: "\<forall>a \<in> set traces. CHR ''&'' \<notin> set (the (newURL (the (path a)) href))
                            \<and> CHR ''#'' \<notin> set (the (newURL (the (path a)) href))"
  have "\<forall>e \<in> set ?es. e \<noteq> [] \<and> CHR ''&'' \<notin> set e \<and> CHR ''#'' \<notin> set e"
    using n by simp
  then have "queryEntries (''trace/index.html?'' @ joinWith ''&'' ?es) = ?es"
    by (rule queryEntries_joined)
  then show "map_sum id queryEntries (generateTraceUrl newURL href traces) = Inr ?es"
    by (simp only: g map_sum.simps)
next
  assume "\<exists>a \<in> set traces.
      newURL (case path a of None \<Rightarrow> ''undefined'' | Some p \<Rightarrow> p) href = None"
  then have "traceEntries newURL href traces = Inl TypeError"
    by (rule traceEntries_refused)
  then show "generateTraceUrl newURL href traces = Inl TypeError"
    by (simp add: generateTraceUrl_def)
qed

theorem generateTraceUrl_entries_witness:
  "generateTraceUrl exampleHost ''https://x/report/''
     [\<lparr>name = ''trace'', contentType = ''application/zip'', path = Some ''a.zip'', body = None\<rparr>,
      \<lparr>name = ''trace'', contentType = ''application/zip'', path = Some ''b.zip'', body = None\<rparr>]
     = Inr ''trace/index.html?trace=https://x/report/a.zip&trace=https://x/report/b.zip''
   \<and> map_sum id queryEntries
       (generateTraceUrl exampleHost ''https://x/report/''
         [\<lparr>name = ''trace'', contentType = ''application/zip'', path = Some ''a.zip'', body = None\<rparr>,
          \<lparr>name = ''trace'', contentType = ''application/zip'', path = Some ''b.zip'', body = None\<rparr>])
     = Inr [''trace=https://x/report/a.zip'', ''trace=https://x/report/b.zip'']
   \<and> exampleHost ''http://[::1'' ''https://x/report/'' = None
   \<and> generateTraceUrl exampleHost ''https://x/report/''
       [\<lparr>name = ''trace'', contentType = ''application/zip'', path = Some ''a.zip'', body = None\<rparr>,
        \<lparr>name = ''trace'', contentType = ''application/zip'', path = Some ''http://[::1'', body = None\<rparr>]
     = Inl TypeError"
proof -
  let ?ts = "[\<lparr>name = ''trace'', contentType = ''application/zip'', path = Some ''a.zip'', body = None\<rparr>,
      \<lparr>name = ''trace'', contentType = ''application/zip'', path = Some ''b.zip'', body = None\<rparr>]"
  let ?bad = "[\<lparr>name = ''trace'', contentType = ''application/zip'', path = Some ''a.zip'', body = None\<rparr>,
      \<lparr>name = ''trace'', contentType = ''application/zip'', path = Some ''http://[::1'', body = None\<rparr>]"
  let ?es = "map (\<lambda>a. ''trace='' @ the (exampleHost (the (path a)) ''https://x/report/'')) ?ts"
  have h: "\<forall>a \<in> set ?ts. \<exists>p u. path a = Some p \<and> exampleHost p ''https://x/report/'' = Some u"
    by (simp add: exampleHost_def)
  have n: "\<forall>a \<in> set ?ts. CHR ''&'' \<notin> set (the (exampleHost (the (path a)) ''https://x/report/''))
      \<and> CHR ''#'' \<notin> set (the (exampleHost (the (path a)) ''https://x/report/''))"
    by (simp add: exampleHost_def)
  have x: "exampleHost ''http://[::1'' ''https://x/report/'' = None"
    by (simp add: exampleHost_def)
  then have b: "\<exists>a \<in> set ?bad.
      exampleHost (case path a of None \<Rightarrow> ''undefined'' | Some p \<Rightarrow> p) ''https://x/report/'' = None"
    by simp
  have es: "?es = [''trace=https://x/report/a.zip'', ''trace=https://x/report/b.zip'']"
    by (simp add: exampleHost_def)
  note t = generateTraceUrl_entries [where traces = ?ts and newURL = exampleHost
      and href = "''https://x/report/''", THEN conjunct1, THEN mp, OF h]
  have "generateTraceUrl exampleHost ''https://x/report/'' ?ts
      = Inr (''trace/index.html?'' @ joinWith ''&'' ?es)"
    by (rule t [THEN conjunct1])
  then have a: "generateTraceUrl exampleHost ''https://x/report/'' ?ts
      = Inr ''trace/index.html?trace=https://x/report/a.zip&trace=https://x/report/b.zip''"
    by (simp only: es) simp
  have "map_sum id queryEntries (generateTraceUrl exampleHost ''https://x/report/'' ?ts) = Inr ?es"
    by (rule t [THEN conjunct2, THEN mp, OF n])
  then have c: "map_sum id queryEntries (generateTraceUrl exampleHost ''https://x/report/'' ?ts)
      = Inr [''trace=https://x/report/a.zip'', ''trace=https://x/report/b.zip'']"
    by (simp only: es)
  have d: "generateTraceUrl exampleHost ''https://x/report/'' ?bad = Inl TypeError"
    by (rule generateTraceUrl_entries [where traces = ?bad and newURL = exampleHost
        and href = "''https://x/report/''", THEN conjunct2, THEN mp, OF b])
  from a c x d show ?thesis by simp
qed

section \<open>Matching an anchor\<close>

text \<open>
  C2. When the parameters hold an anchor \<open>v\<close>, \<^verbatim>\<open>useIsAnchored\<close> returns false for an
  absent id, the equality of the id with \<open>v\<close> for a string, the membership of \<open>v\<close> for
  an array of strings, and the result of the function on \<open>v\<close> for a function. When the
  parameters hold no \<^verbatim>\<open>anchor\<close> key, it returns false whatever the id.
\<close>

theorem useIsAnchored_matching:
  "(\<forall>v. URLSearchParams_get sp ''anchor'' = Some v \<longrightarrow>
       fst (useIsAnchored IdUndefined sp) = False
     \<and> fst (useIsAnchored (IdString s) sp) = (s = v)
     \<and> fst (useIsAnchored (IdArray xs) sp) = (v \<in> set xs)
     \<and> fst (useIsAnchored (IdFunction f) sp) = f v)
   \<and> (''anchor'' \<notin> fst ` set sp \<longrightarrow> fst (useIsAnchored aid sp) = False)"
proof (intro conjI allI impI)
  assume "''anchor'' \<notin> fst ` set sp"
  then have "URLSearchParams_get sp ''anchor'' = None"
    by (simp add: get_None_iff)
  then show "fst (useIsAnchored aid sp) = False"
    by (simp add: useIsAnchored_def)
qed (simp_all add: useIsAnchored_def)

theorem useIsAnchored_matching_witness:
  "URLSearchParams_get [(''testId'', ''T1''), (''anchor'', ''row-42'')] ''anchor'' = Some ''row-42''
   \<and> \<not> fst (useIsAnchored IdUndefined [(''testId'', ''T1''), (''anchor'', ''row-42'')])
   \<and> \<not> fst (useIsAnchored (IdString ''row-4'') [(''testId'', ''T1''), (''anchor'', ''row-42'')])
   \<and> fst (useIsAnchored (IdArray [''a'', ''row-42'']) [(''testId'', ''T1''), (''anchor'', ''row-42'')])
   \<and> fst (useIsAnchored (IdFunction (\<lambda>v. take 4 v = ''row-''))
          [(''testId'', ''T1''), (''anchor'', ''row-42'')])
   \<and> ''anchor'' \<notin> fst ` set [(''q'', ''row-42'')]
   \<and> \<not> fst (useIsAnchored (IdString ''row-42'') [(''q'', ''row-42'')])"
  using useIsAnchored_matching [of "[(''testId'', ''T1''), (''anchor'', ''row-42'')]" "''row-4''"
      "[''a'', ''row-42'']" "\<lambda>v. take 4 v = ''row-''" IdUndefined]
    useIsAnchored_matching [of "[(''q'', ''row-42'')]" "''a''" "[]" "\<lambda>v. True" "IdString ''row-42''"]
  by simp

text \<open>
  C10. Every argument a function-shaped id is called with by \<^verbatim>\<open>useIsAnchored\<close> is the
  value of the \<^verbatim>\<open>anchor\<close> key of the current parameters. Without that key the function
  is not called and the result is false; with it, the function is called once, on that
  string.
\<close>

theorem predicate_called_only_on_anchor:
  "set (snd (useIsAnchored aid sp)) \<subseteq> set_option (URLSearchParams_get sp ''anchor'')
   \<and> (''anchor'' \<notin> fst ` set sp \<longrightarrow> useIsAnchored (IdFunction f) sp = (False, []))
   \<and> (\<forall>v. URLSearchParams_get sp ''anchor'' = Some v
        \<longrightarrow> useIsAnchored (IdFunction f) sp = (f v, [v]))"
proof (intro conjI allI impI)
  show "set (snd (useIsAnchored aid sp)) \<subseteq> set_option (URLSearchParams_get sp ''anchor'')"
    by (cases aid) (simp_all add: useIsAnchored_def split: option.splits)
next
  assume "''anchor'' \<notin> fst ` set sp"
  then have "URLSearchParams_get sp ''anchor'' = None"
    by (simp add: get_None_iff)
  then show "useIsAnchored (IdFunction f) sp = (False, [])"
    by (simp add: useIsAnchored_def)
next
  fix v assume "URLSearchParams_get sp ''anchor'' = Some v"
  then show "useIsAnchored (IdFunction f) sp = (f v, [v])"
    by (simp add: useIsAnchored_def)
qed

theorem predicate_called_only_on_anchor_witness:
  "''anchor'' \<notin> fst ` set [(''q'', ''row-42'')]
   \<and> useIsAnchored (IdFunction (\<lambda>v. True)) [(''q'', ''row-42'')] = (False, [])
   \<and> URLSearchParams_get [(''anchor'', ''col-42'')] ''anchor'' = Some ''col-42''
   \<and> useIsAnchored (IdFunction (\<lambda>v. take 4 v = ''row-'')) [(''anchor'', ''col-42'')]
       = (False, [''col-42''])"
  using predicate_called_only_on_anchor [of IdUndefined "[(''q'', ''row-42'')]" "\<lambda>v. True"]
    predicate_called_only_on_anchor [of IdUndefined "[(''anchor'', ''col-42'')]"
      "\<lambda>v. take 4 v = ''row-''"]
  by simp

section \<open>Navigating\<close>

lemma listener_frame:
  "location (listener w p) = location w" "history (listener w p) = history w"
  "listeners (listener w p) = listeners w" "nextRef (listener w p) = Suc (nextRef w)"
  by (simp_all add: listener_def)

lemma dispatch_frame:
  "location (foldl listener w ps) = location w"
  "history (foldl listener w ps) = history w"
  "listeners (foldl listener w ps) = listeners w"
  "nextRef (foldl listener w ps) = nextRef w + length ps"
  by (induction ps arbitrary: w) (simp_all add: listener_frame)

lemma dispatch_cells:
  "p \<in> set ps \<Longrightarrow>
   \<exists>s. cells (foldl listener w ps) p = Some s
     \<and> entries s = parseFragment (location_hash (location w))
     \<and> nextRef w \<le> ref s \<and> ref s < nextRef w + length ps"
proof (induction ps rule: rev_induct)
  case Nil
  then show ?case by simp
next
  case (snoc q qs)
  let ?v = "foldl listener w qs"
  show ?case
  proof (cases "p = q")
    case True
    have "cells (listener ?v q) q
        = Some \<lparr>ref = nextRef w + length qs,
                 entries = parseFragment (location_hash (location w))\<rparr>"
      by (simp add: listener_def dispatch_frame)
    with True show ?thesis by simp
  next
    case False
    with snoc.prems have "p \<in> set qs" by simp
    then obtain s where s: "cells ?v p = Some s"
      "entries s = parseFragment (location_hash (location w))"
      "nextRef w \<le> ref s" "ref s < nextRef w + length qs"
      using snoc.IH by blast
    have "cells (listener ?v q) p = cells ?v p"
      using False by (simp add: listener_def)
    with s show ?thesis by simp
  qed
qed

text \<open>
  C7. When the host accepts the target, \<^verbatim>\<open>navigate(target)\<close> pushes one history entry
  with the target, which becomes the location, and then runs the \<^verbatim>\<open>popstate\<close>
  listeners: every provider that listens then holds a new parameters object, parsed from
  the fragment of the new location. The push alone changes no provider's parameters.
  (When the host refuses the target, \<^verbatim>\<open>pushState\<close> throws and no event is sent.)
\<close>

theorem navigate_notifies:
  assumes "parseUrl href (location w) = Some u"
  shows "(case pushState parseUrl href w of
            Inl e \<Rightarrow> False
          | Inr w1 \<Rightarrow> location w1 = u \<and> history w1 = history w @ [u]
                     \<and> cells w1 = cells w \<and> nextRef w1 = nextRef w)
    \<and> (case navigate parseUrl href w of
            Inl e \<Rightarrow> False
          | Inr w2 \<Rightarrow> location w2 = u \<and> history w2 = history w @ [u]
                     \<and> (\<forall>p \<in> set (listeners w). \<exists>s. cells w2 p = Some s
                           \<and> entries s = parseFragment (location_hash u)
                           \<and> nextRef w \<le> ref s))"
proof -
  let ?w1 = "w\<lparr>location := u, history := history w @ [u]\<rparr>"
  have p: "pushState parseUrl href w = Inr ?w1"
    using assms by (simp add: pushState_def)
  then have n: "navigate parseUrl href w = Inr (foldl listener ?w1 (listeners w))"
    by (simp add: navigate_def dispatchPopstate_def)
  have f: "location (foldl listener ?w1 (listeners w)) = u"
    "history (foldl listener ?w1 (listeners w)) = history w @ [u]"
    by (simp_all add: dispatch_frame)
  have c: "\<exists>s. cells (foldl listener ?w1 (listeners w)) p = Some s
        \<and> entries s = parseFragment (location_hash u) \<and> nextRef w \<le> ref s"
    if "p \<in> set (listeners w)" for p
    using dispatch_cells [OF that, of ?w1] by auto
  from p n f c show ?thesis by simp
qed

theorem navigate_notifies_witness:
  "(\<lambda>href loc. case href of [] \<Rightarrow> None
       | c # f \<Rightarrow> if c = CHR ''#'' then Some (loc\<lparr>fragment := Some f\<rparr>) else None)
      ''#?anchor=row-3''
      (location \<lparr>location = \<lparr>base = ''https://x/report/index.html'', fragment = None\<rparr>,
                 history = [\<lparr>base = ''https://x/report/index.html'', fragment = None\<rparr>],
                 listeners = [0],
                 cells = [0 \<mapsto> \<lparr>ref = 0, entries = []\<rparr>],
                 nextRef = 1\<rparr>)
     = Some \<lparr>base = ''https://x/report/index.html'', fragment = Some ''?anchor=row-3''\<rparr>
   \<and> (\<exists>w2. navigate
          (\<lambda>href loc. case href of [] \<Rightarrow> None
             | c # f \<Rightarrow> if c = CHR ''#'' then Some (loc\<lparr>fragment := Some f\<rparr>) else None)
          ''#?anchor=row-3''
          \<lparr>location = \<lparr>base = ''https://x/report/index.html'', fragment = None\<rparr>,
           history = [\<lparr>base = ''https://x/report/index.html'', fragment = None\<rparr>],
           listeners = [0],
           cells = [0 \<mapsto> \<lparr>ref = 0, entries = []\<rparr>],
           nextRef = 1\<rparr> = Inr w2
        \<and> location w2 = \<lparr>base = ''https://x/report/index.html'', fragment = Some ''?anchor=row-3''\<rparr>
        \<and> length (history w2) = 2
        \<and> (\<exists>s. cells w2 0 = Some s \<and> entries s = [(''anchor'', ''row-3'')] \<and> 1 \<le> ref s))"
proof -
  let ?P = "\<lambda>href loc. case href of [] \<Rightarrow> None
       | c # f \<Rightarrow> if c = CHR ''#'' then Some (loc\<lparr>fragment := Some f\<rparr>) else None"
  let ?l0 = "\<lparr>base = ''https://x/report/index.html'', fragment = None\<rparr>"
  let ?u = "\<lparr>base = ''https://x/report/index.html'', fragment = Some ''?anchor=row-3''\<rparr>"
  let ?w = "\<lparr>location = ?l0, history = [?l0], listeners = [0],
             cells = [0 \<mapsto> \<lparr>ref = 0, entries = []\<rparr>], nextRef = 1\<rparr>"
  have h: "?P ''#?anchor=row-3'' (location ?w) = Some ?u"
    by simp
  have pf: "parseFragment (location_hash ?u) = [(''anchor'', ''row-3'')]"
    by (simp add: location_hash_def parseFragment_def new_URLSearchParams_def stripQuestion_def
        urlencodedParse_def parsePair_def decodeComponent_def plusToSpace_def)
  note t = navigate_notifies [where parseUrl = ?P and href = "''#?anchor=row-3''" and w = ?w
      and u = ?u, OF h, THEN conjunct2]
  show ?thesis
  proof (cases "navigate ?P ''#?anchor=row-3'' ?w")
    case (Inl e)
    with t show ?thesis by simp
  next
    case (Inr w2)
    with t have "location w2 = ?u" "history w2 = history ?w @ [?u]"
      "\<forall>p \<in> set (listeners ?w). \<exists>s. cells w2 p = Some s
          \<and> entries s = parseFragment (location_hash ?u) \<and> nextRef ?w \<le> ref s"
      by simp_all
    then have "location w2 = ?u" "length (history w2) = 2"
      "\<exists>s. cells w2 0 = Some s \<and> entries s = [(''anchor'', ''row-3'')] \<and> 1 \<le> ref s"
      by (simp_all add: pf)
    with Inr h show ?thesis by blast
  qed
qed

lemma dispatch_others:
  "p \<notin> set ps \<Longrightarrow> cells (foldl listener w ps) p = cells w p"
  by (induction ps arbitrary: w) (simp_all add: listener_def)

lemma navigate_refused:
  "parseUrl href (location w) = None \<Longrightarrow> navigate parseUrl href w = Inl SecurityError"
  by (simp add: navigate_def pushState_def)

lemma navigate_new_object:
  assumes "parseUrl href (location w) = Some u"
    and "p \<in> set (listeners w)"
    and "cells w p = Some s0"
    and "ref s0 < nextRef w"
  shows "\<exists>w2 s. navigate parseUrl href w = Inr w2 \<and> cells w2 p = Some s
      \<and> entries s = parseFragment (location_hash u) \<and> ref s \<noteq> ref s0"
proof -
  let ?w1 = "w\<lparr>location := u, history := history w @ [u]\<rparr>"
  have n: "navigate parseUrl href w = Inr (foldl listener ?w1 (listeners w))"
    using assms(1) by (simp add: navigate_def pushState_def dispatchPopstate_def)
  from dispatch_cells [of p "listeners w" ?w1] assms(2)
  obtain s where "cells (foldl listener ?w1 (listeners w)) p = Some s"
    "entries s = parseFragment (location_hash u)" "nextRef w \<le> ref s"
    by auto
  with n assms(4) show ?thesis by auto
qed

lemma mounted_provider_notified:
  assumes "parseUrl href (location w) = Some u"
  shows "\<exists>w2 s. navigate parseUrl href (mountProvider p w) = Inr w2 \<and> cells w2 p = Some s
      \<and> entries s = parseFragment (location_hash u)"
proof -
  let ?m = "mountProvider p w"
  have "parseUrl href (location ?m) = Some u" "p \<in> set (listeners ?m)"
    "cells ?m p = Some \<lparr>ref = nextRef w, entries = parseFragment (location_hash (location w))\<rparr>"
    "nextRef ?m = Suc (nextRef w)"
    using assms by (simp_all add: mountProvider_def)
  then show ?thesis
    using navigate_new_object [of parseUrl href ?m u p] by fastforce
qed

lemma unmounted_provider_not_notified:
  assumes "parseUrl href (location w) = Some u"
  shows "\<exists>w2. navigate parseUrl href (unmountProvider p w) = Inr w2 \<and> cells w2 p = None"
proof -
  let ?m = "unmountProvider p w"
  let ?w1 = "?m\<lparr>location := u, history := history ?m @ [u]\<rparr>"
  have "navigate parseUrl href ?m = Inr (foldl listener ?w1 (listeners ?m))"
    using assms by (simp add: navigate_def pushState_def dispatchPopstate_def unmountProvider_def)
  moreover have "p \<notin> set (listeners ?m)" "cells ?w1 p = None"
    by (simp_all add: unmountProvider_def)
  ultimately show ?thesis
    by (simp add: dispatch_others)
qed

section \<open>Revealing an anchor\<close>

text \<open>
  C1, as the claim states it, fails. A subscriber with the id \<^verbatim>\<open>row-3\<close> renders with
  no anchor, then with \<^verbatim>\<open>anchor=row-3\<close>, then, after a change of an unrelated parameter,
  with \<^verbatim>\<open>anchor=row-3&q=foo\<close>. Each change of the parameters reaches the subscriber as a
  new \<^verbatim>\<open>URLSearchParams\<close> object (line 108 makes one for every \<^verbatim>\<open>popstate\<close> event), and
  \<^verbatim>\<open>searchParams\<close> is a dependency of the effect, so the effect runs again on the third
  render and calls \<^verbatim>\<open>onReveal\<close> a second time.
\<close>

theorem reveal_fires_again_on_navigation:
  "reveals (renders (IdString ''row-3'') 0
      [\<lparr>ref = 0, entries = []\<rparr>,
       \<lparr>ref = 1, entries = [(''anchor'', ''row-3'')]\<rparr>,
       \<lparr>ref = 2, entries = [(''anchor'', ''row-3''), (''q'', ''foo'')]\<rparr>]
      mountedHook) = 2"
  by (simp add: mountedHook_def useAnchor_def useIsAnchored_def)

text \<open>
  C1, amended. For a subscriber with a fixed id and callback, the callback runs exactly
  once on the render that takes it from not anchored (or not yet rendered) to anchored.
  A further render with the same parameters object does not call it again. A change of
  the parameters, which arrives as a new parameters object, calls it once more when the
  subscriber is still anchored, also when the anchor value is the same. A render that
  is not anchored calls nothing, and no render calls it more than once.
\<close>

theorem reveal_once_per_snapshot:
  "(fst (useIsAnchored aid (entries sp))
      \<and> (lastDeps h = None \<or> (\<exists>r. lastDeps h = Some (False, onReveal, r)))
      \<longrightarrow> reveals (useAnchor aid onReveal sp h) = reveals h + 1)
   \<and> useAnchor aid onReveal sp (useAnchor aid onReveal sp h) = useAnchor aid onReveal sp h
   \<and> (fst (useIsAnchored aid (entries sp))
      \<and> (\<exists>r. lastDeps h = Some (True, onReveal, r) \<and> r \<noteq> ref sp)
      \<longrightarrow> reveals (useAnchor aid onReveal sp h) = reveals h + 1)
   \<and> (\<not> fst (useIsAnchored aid (entries sp))
      \<longrightarrow> reveals (useAnchor aid onReveal sp h) = reveals h)
   \<and> reveals (useAnchor aid onReveal sp h) \<le> reveals h + 1"
  by (auto simp: useAnchor_def Let_def)

theorem reveal_once_per_snapshot_witness:
  "reveals (useAnchor (IdString ''row-3'') 0 \<lparr>ref = 1, entries = [(''anchor'', ''row-3'')]\<rparr>
      \<lparr>lastDeps = Some (False, 0, 0), reveals = 0\<rparr>) = 1
   \<and> reveals (useAnchor (IdString ''row-3'') 0 \<lparr>ref = 2, entries = [(''anchor'', ''row-3''), (''q'', ''foo'')]\<rparr>
      \<lparr>lastDeps = Some (True, 0, 1), reveals = 1\<rparr>) = 2
   \<and> reveals (useAnchor (IdString ''row-3'') 0 \<lparr>ref = 3, entries = [(''q'', ''foo'')]\<rparr>
      \<lparr>lastDeps = Some (True, 0, 2), reveals = 2\<rparr>) = 2"
proof -
  have a: "fst (useIsAnchored (IdString ''row-3'') [(''anchor'', ''row-3'')])"
    "fst (useIsAnchored (IdString ''row-3'') [(''anchor'', ''row-3''), (''q'', ''foo'')])"
    "\<not> fst (useIsAnchored (IdString ''row-3'') [(''q'', ''foo'')])"
    by (simp_all add: useIsAnchored_def)
  show ?thesis
    using a
      reveal_once_per_snapshot [of "IdString ''row-3''" "\<lparr>ref = 1, entries = [(''anchor'', ''row-3'')]\<rparr>"
        "\<lparr>lastDeps = Some (False, 0, 0), reveals = 0\<rparr>" 0]
      reveal_once_per_snapshot [of "IdString ''row-3''"
        "\<lparr>ref = 2, entries = [(''anchor'', ''row-3''), (''q'', ''foo'')]\<rparr>"
        "\<lparr>lastDeps = Some (True, 0, 1), reveals = 1\<rparr>" 0]
      reveal_once_per_snapshot [of "IdString ''row-3''" "\<lparr>ref = 3, entries = [(''q'', ''foo'')]\<rparr>"
        "\<lparr>lastDeps = Some (True, 0, 2), reveals = 2\<rparr>" 0]
    by simp
qed

text \<open>
  A navigation gives a listening provider a new object, so a subscriber below it that
  is anchored before and after the navigation sees a changed dependency and reveals
  once more.
\<close>

lemma reveal_after_navigate:
  assumes "parseUrl href (location w) = Some u"
    and "p \<in> set (listeners w)"
    and "cells w p = Some s0"
    and "ref s0 < nextRef w"
    and "lastDeps h = Some (True, onReveal, ref s0)"
    and "fst (useIsAnchored aid (parseFragment (location_hash u)))"
  shows "\<exists>w2 s. navigate parseUrl href w = Inr w2 \<and> cells w2 p = Some s
      \<and> reveals (useAnchor aid onReveal s h) = reveals h + 1"
proof -
  from navigate_new_object [where parseUrl = parseUrl and href = href and w = w, OF assms(1-4)]
  obtain w2 s where s: "navigate parseUrl href w = Inr w2" "cells w2 p = Some s"
    "entries s = parseFragment (location_hash u)" "ref s \<noteq> ref s0"
    by blast
  then have "reveals (useAnchor aid onReveal s h) = reveals h + 1"
    using assms(5,6) by (simp add: useAnchor_def Let_def)
  with s show ?thesis by blast
qed

end
